theory Spec2Isabelle
  imports Main
begin

unbundle bit_operations_syntax

section \<open>Python strings\<close>

text \<open>
  A Python \<open>str\<close> is a sequence of Unicode code points, and \<open>len\<close>, \<open>center\<close>,
  \<open>ljust\<close> and \<open>rjust\<close> count code points. A string is therefore modelled as a list of
  code points (natural numbers); \<open>u\<close> turns a literal into such a list.
\<close>

type_synonym codepoint = nat
type_synonym pystr = "codepoint list"

definition u :: "string \<Rightarrow> pystr" where
  "u s = map of_char s"

definition newline :: codepoint where
  "newline = 10"

definition space :: codepoint where
  "space = 32"

text \<open>
  \<open>s.split('\n')\<close>: the pieces between the separators. The result always has one more
  element than \<open>s\<close> has newlines, so it is never empty (\<open>''.split('\n') == ['']\<close>).
\<close>

fun str_split :: "pystr \<Rightarrow> pystr list" where
  "str_split [] = [[]]"
| "str_split (c # cs) =
     (if c = newline then [] # str_split cs
      else (c # hd (str_split cs)) # tl (str_split cs))"

text \<open>\<open>'\n'.join(xs)\<close>.\<close>

fun str_join :: "pystr list \<Rightarrow> pystr" where
  "str_join [] = []"
| "str_join [x] = x"
| "str_join (x # y # ys) = x @ newline # str_join (y # ys)"

text \<open>
  CPython's \<open>pad(self, left, right, fill)\<close> with the default fill character, a space
  (Objects/unicodeobject.c); a negative amount counts as zero there.
\<close>

definition pad :: "pystr \<Rightarrow> int \<Rightarrow> int \<Rightarrow> pystr" where
  "pad s left right = replicate (nat left) space @ s @ replicate (nat right) space"

text \<open>
  \<open>s.center(width)\<close>, as \<open>unicode_center_impl\<close> computes it:
  \<^verbatim>\<open>
  if (len >= width) return self;
  marg = width - len;
  left = marg / 2 + (marg & width & 1);
  return pad(self, left, marg - left, fillchar);
  \<close>
\<close>

definition str_center :: "pystr \<Rightarrow> int \<Rightarrow> pystr" where
  "str_center s width =
     (if width \<le> int (length s) then s
      else let marg = width - int (length s);
               left = marg div 2 + (marg AND width AND 1)
           in pad s left (marg - left))"

text \<open>\<open>s.ljust(width)\<close> and \<open>s.rjust(width)\<close>.\<close>

definition str_ljust :: "pystr \<Rightarrow> int \<Rightarrow> pystr" where
  "str_ljust s width =
     (if width \<le> int (length s) then s else pad s 0 (width - int (length s)))"

definition str_rjust :: "pystr \<Rightarrow> int \<Rightarrow> pystr" where
  "str_rjust s width =
     (if width \<le> int (length s) then s else pad s (width - int (length s)) 0)"

section \<open>The helper \<open>justify_text\<close>\<close>

text \<open>
  \<^verbatim>\<open>
  def justify_text(text: str, width: int, alignment: str) -> str:
      lines = text.split('\n')
      justified = []
      for line in lines:
          if alignment == "center":
              justified.append(line.center(width))
          elif alignment == "right":
              justified.append(line.rjust(width))
          else:  # left
              justified.append(line.ljust(width))
      return '\n'.join(justified)
  \<close>
  The handler passes \<open>req.justify\<close>, an \<open>Optional[str]\<close>, as the alignment: \<open>None\<close>
  compares unequal to both literals and takes the last branch.
\<close>

definition justify_line :: "int \<Rightarrow> pystr option \<Rightarrow> pystr \<Rightarrow> pystr" where
  "justify_line width alignment line =
     (if alignment = Some (u ''center'') then str_center line width
      else if alignment = Some (u ''right'') then str_rjust line width
      else str_ljust line width)"

fun justify_loop :: "pystr list \<Rightarrow> int \<Rightarrow> pystr option \<Rightarrow> pystr list \<Rightarrow> pystr list" where
  "justify_loop [] width alignment justified = justified"
| "justify_loop (line # lines) width alignment justified =
     justify_loop lines width alignment (justified @ [justify_line width alignment line])"

definition justify_text :: "pystr \<Rightarrow> int \<Rightarrow> pystr option \<Rightarrow> pystr" where
  "justify_text text width alignment =
     str_join (justify_loop (str_split text) width alignment [])"

section \<open>Exceptions, requests and responses\<close>

text \<open>
  Everything a handler can raise. \<open>HTTPException\<close> is the framework's exception class, a
  subclass of \<open>Exception\<close> carrying a status code and a detail. The detail of the handler's
  own 400 is the f-string built from \<open>available_fonts[:5]\<close> and \<open>len(available_fonts)\<close>;
  the detail of the 500 is \<open>str(e)\<close> of the exception caught, kept symbolic as \<open>StrOf e\<close>.
  \<open>ValidationError\<close> is the one pydantic raises, with the fields it rejects;
  \<open>FigletError\<close> stands for an exception raised inside the rendering library, with its
  message.
\<close>

datatype exn =
    ValidationError "pystr list"
  | TypeError
  | IndexError
  | FigletError pystr
  | HTTPException nat detail
and detail =
    FontNotFound "pystr list" nat
  | StrOf exn

text \<open>
  A field of the JSON body: no such key, \<open>null\<close>, or a value of the declared type. (A value
  of another JSON type is outside this model.)
\<close>

datatype 'a field = Absent | Null | Val 'a

record body =
  b_text :: "pystr field"
  b_font :: "pystr field"
  b_width :: "int field"
  b_justify :: "pystr field"

text \<open>
  \<^verbatim>\<open>
  class FigletRequest(BaseModel):
      text: str
      font: str = "standard"
      width: Optional[int] = 80
      justify: Optional[str] = "center"  # left/center/right
  \<close>
  \<open>text\<close> is required and, like \<open>font\<close>, may not be \<open>null\<close>; an absent field takes its
  default; the two \<open>Optional\<close> fields accept \<open>null\<close>. No field has a further constraint.
\<close>

record figlet_request =
  req_text :: pystr
  req_font :: pystr
  req_width :: "int option"
  req_justify :: "pystr option"

definition with_default :: "'a field \<Rightarrow> 'a \<Rightarrow> 'a option" where
  "with_default f d = (case f of Absent \<Rightarrow> Some d | Null \<Rightarrow> None | Val v \<Rightarrow> Some v)"

definition FigletRequest :: "body \<Rightarrow> exn + figlet_request" where
  "FigletRequest b =
     (case (b_text b, with_default (b_font b) (u ''standard'')) of
        (Val t, Some f) \<Rightarrow>
          Inr \<lparr>req_text = t, req_font = f,
               req_width = with_default (b_width b) 80,
               req_justify = with_default (b_justify b) (u ''center'')\<rparr>
      | (Val t, None) \<Rightarrow> Inl (ValidationError [u ''font''])
      | (_, Some f) \<Rightarrow> Inl (ValidationError [u ''text''])
      | (_, None) \<Rightarrow> Inl (ValidationError [u ''text'', u ''font'']))"

datatype metadata =
    RenderMeta (original_text: pystr) (meta_width: "int option")
               (meta_alignment: "pystr option") (line_count: nat)
  | NoteMeta (meta_note: pystr)

record response =
  ascii_art :: pystr
  font_used :: pystr
  metadata :: metadata

record font_list_response =
  fonts :: "pystr list"
  count :: nat

section \<open>The rendering library\<close>

text \<open>
  \<open>pyfiglet.figlet_format(text, font=..., width=...)\<close> and \<open>FigletFont.getFonts()\<close> belong to
  a library outside the repository. The handlers are modelled for an arbitrary engine
  \<open>figlet_format\<close>, which returns a block of text or raises (\<open>Inl\<close> its message), and an
  arbitrary font list \<open>getFonts\<close>. The third argument is the \<open>width\<close> keyword: \<open>Absent\<close>
  when the call does not pass it, \<open>Null\<close> for \<open>None\<close>.
\<close>

type_synonym engine = "pystr \<Rightarrow> pystr \<Rightarrow> int field \<Rightarrow> pystr + pystr"

definition kwarg :: "'a option \<Rightarrow> 'a field" where
  "kwarg v = (case v of None \<Rightarrow> Null | Some x \<Rightarrow> Val x)"

text \<open>
  An engine to evaluate the handlers with at concrete inputs: a font of height one whose
  glyph for a character is the character itself. Like the library it ends each row with a
  newline and renders the empty text as the empty string.
\<close>

definition plain_engine :: engine where
  "plain_engine text font width = Inr (if text = [] then [] else text @ [newline])"

text \<open>
  An engine that raises on every request, to evaluate the handlers where the library call
  fails.
\<close>

definition refusing_engine :: engine where
  "refusing_engine text font width =
     Inl (u ''Width is not enough to print this character'')"

section \<open>The handlers\<close>

text \<open>
  The body of the \<open>try\<close> in \<open>generate_ascii\<close>:
  \<^verbatim>\<open>
  req = FigletRequest(**body)
  available_fonts = FigletFont.getFonts()
  if req.font not in available_fonts:
      raise HTTPException(status_code=400, detail=f"Font not found. ...")
  ascii_art = pyfiglet.figlet_format(req.text, font=req.font, width=req.width)
  ascii_art = justify_text(ascii_art, req.width, req.justify)
  return response.json({"ascii_art": ascii_art, "font_used": req.font,
      "metadata": {"original_text": req.text, "width": req.width,
                   "alignment": req.justify,
                   "line_count": len(ascii_art.split('\n'))}})
  \<close>
  With \<open>req.width\<close> being \<open>None\<close>, \<open>justify_text\<close> raises \<open>TypeError\<close> at its first line
  (there always is one), in \<open>center\<close>, \<open>rjust\<close> or \<open>ljust\<close>.
\<close>

definition generate_ascii_try :: "pystr list \<Rightarrow> engine \<Rightarrow> body \<Rightarrow> exn + response" where
  "generate_ascii_try getFonts figlet_format b =
     (case FigletRequest b of
        Inl e \<Rightarrow> Inl e
      | Inr req \<Rightarrow>
          if req_font req \<notin> set getFonts
          then Inl (HTTPException 400 (FontNotFound (take 5 getFonts) (length getFonts)))
          else
            (case figlet_format (req_text req) (req_font req) (kwarg (req_width req)) of
               Inl m \<Rightarrow> Inl (FigletError m)
             | Inr art \<Rightarrow>
                 (case req_width req of
                    None \<Rightarrow> Inl TypeError
                  | Some w \<Rightarrow>
                      let ascii = justify_text art w (req_justify req)
                      in Inr \<lparr>ascii_art = ascii, font_used = req_font req,
                              metadata = RenderMeta (req_text req) (req_width req)
                                           (req_justify req) (length (str_split ascii))\<rparr>)))"

text \<open>
  The handler: the \<open>try\<close> above, and
  \<^verbatim>\<open>
  except Exception as e:
      raise HTTPException(status_code=500, detail=str(e))
  \<close>
  which catches every exception raised in the body, the \<open>HTTPException\<close> of the font check
  included.
\<close>

definition generate_ascii :: "pystr list \<Rightarrow> engine \<Rightarrow> body \<Rightarrow> exn + response" where
  "generate_ascii getFonts figlet_format b =
     (case generate_ascii_try getFonts figlet_format b of
        Inl e \<Rightarrow> Inl (HTTPException 500 (StrOf e))
      | Inr r \<Rightarrow> Inr r)"

text \<open>
  \<^verbatim>\<open>
  fonts = FigletFont.getFonts()
  return response.json({"fonts": fonts, "count": len(fonts)})
  \<close>
\<close>

definition list_fonts :: "pystr list \<Rightarrow> font_list_response" where
  "list_fonts getFonts = \<lparr>fonts = getFonts, count = length getFonts\<rparr>"

text \<open>
  \<open>random.choice(seq)\<close> raises \<open>IndexError\<close> on an empty sequence and otherwise returns
  \<open>seq[i]\<close> for an index drawn from the generator. The generator is the sequence \<open>rng\<close> of
  its draws, \<open>k\<close> the number of draws made so far; a draw is reduced to an index.
\<close>

definition choice :: "'a list \<Rightarrow> (nat \<Rightarrow> nat) \<Rightarrow> nat \<Rightarrow> exn + ('a \<times> nat)" where
  "choice seq rng k =
     (if seq = [] then Inl IndexError else Inr (seq ! (rng k mod length seq), Suc k))"

definition sample_texts :: "pystr list" where
  "sample_texts =
     [u ''Hello World'', u ''ASCII Rocks'', u ''PyFiglet'', u ''Nexios'', u ''Make Art'']"

text \<open>
  \<^verbatim>\<open>
  fonts = FigletFont.getFonts()
  return response.json({
      "ascii_art": pyfiglet.figlet_format(choice(sample_texts), font=choice(fonts)),
      "font_used": choice(fonts),
      "metadata": {"note": "Randomly generated"}})
  \<close>
  Python evaluates the three calls of \<open>choice\<close> from left to right and top to bottom.
  There is no \<open>try\<close> here: an exception leaves the handler as it is.
\<close>

definition random_art :: "pystr list \<Rightarrow> engine \<Rightarrow> (nat \<Rightarrow> nat) \<Rightarrow> nat \<Rightarrow> exn + (response \<times> nat)" where
  "random_art getFonts figlet_format rng k =
     (case choice sample_texts rng k of
        Inl e \<Rightarrow> Inl e
      | Inr (phrase, k1) \<Rightarrow>
          (case choice getFonts rng k1 of
             Inl e \<Rightarrow> Inl e
           | Inr (font, k2) \<Rightarrow>
               (case figlet_format phrase font Absent of
                  Inl m \<Rightarrow> Inl (FigletError m)
                | Inr art \<Rightarrow>
                    (case choice getFonts rng k2 of
                       Inl e \<Rightarrow> Inl e
                     | Inr (font', k3) \<Rightarrow>
                         Inr (\<lparr>ascii_art = art, font_used = font',
                               metadata = NoteMeta (u ''Randomly generated'')\<rparr>, k3)))))"

text \<open>
  The specification's request \<open>render(text, font, width, justify)\<close> as a JSON body: all four
  fields present.
\<close>

definition render_request :: "pystr \<Rightarrow> pystr \<Rightarrow> int \<Rightarrow> pystr \<Rightarrow> body" where
  "render_request text font width justify =
     \<lparr>b_text = Val text, b_font = Val font, b_width = Val width, b_justify = Val justify\<rparr>"

section \<open>Properties of the string operations\<close>

lemma str_split_nonempty: "str_split s \<noteq> []"
  by (cases s) simp_all

lemma str_split_length_pos: "0 < length (str_split s)"
  using str_split_nonempty [of s] by simp

lemma str_split_no_newline: "l \<in> set (str_split s) \<Longrightarrow> newline \<notin> set l"
proof (induction s arbitrary: l)
  case Nil
  then show ?case by simp
next
  case (Cons c cs)
  obtain h t where ht: "str_split cs = h # t"
    using str_split_nonempty [of cs] by (cases "str_split cs") auto
  show ?case
  proof (cases "c = newline")
    case True
    with Cons show ?thesis by auto
  next
    case False
    with Cons.prems ht have "l = c # h \<or> l \<in> set t" by auto
    then show ?thesis
    proof
      assume "l = c # h"
      moreover have "newline \<notin> set h" using Cons.IH [of h] ht by simp
      ultimately show ?thesis using False by auto
    next
      assume "l \<in> set t"
      then show ?thesis using Cons.IH [of l] ht by simp
    qed
  qed
qed



lemma str_split_append_newline:
  "newline \<notin> set l \<Longrightarrow> str_split (l @ newline # s) = l # str_split s"
  by (induction l) auto

lemma str_split_line: "newline \<notin> set l \<Longrightarrow> str_split l = [l]"
  by (induction l) auto

lemma str_split_join:
  "ls \<noteq> [] \<Longrightarrow> (\<And>l. l \<in> set ls \<Longrightarrow> newline \<notin> set l) \<Longrightarrow> str_split (str_join ls) = ls"
proof (induction ls rule: str_join.induct)
  case 1
  then show ?case by simp
next
  case (2 x)
  then show ?case by (simp add: str_split_line)
next
  case (3 x y ys)
  then show ?case by (simp add: str_split_append_newline)
qed

lemma and_and_one: "(m::int) AND w AND 1 = (if odd m \<and> odd w then 1 else 0)"
  by (simp add: and_one_eq mod2_eq_if flip: and.assoc)

lemma length_pad: "length (pad s l r) = nat l + length s + nat r"
  by (simp add: pad_def)

lemma str_center_pad:
  "int (length s) < width \<Longrightarrow>
   str_center s width =
     pad s ((width - int (length s)) div 2
              + (if odd (width - int (length s)) \<and> odd width then 1 else 0))
           ((width - int (length s))
              - ((width - int (length s)) div 2
                 + (if odd (width - int (length s)) \<and> odd width then 1 else 0)))"
  by (simp add: str_center_def Let_def and_and_one)

lemma length_str_center: "int (length (str_center s width)) = max width (int (length s))"
proof (cases "width \<le> int (length s)")
  case True
  then show ?thesis by (simp add: str_center_def)
next
  case False
  then have lt: "int (length s) < width" by simp
  define m where "m = width - int (length s)"
  have m: "0 < m" using lt by (simp add: m_def)
  define l where "l = m div 2 + (if odd m \<and> odd width then 1 else 0)"
  have l0: "0 \<le> l" using m by (simp add: l_def)
  have lm: "l \<le> m" using m unfolding l_def by (auto elim: oddE)
  have "str_center s width = pad s l (m - l)"
    using str_center_pad [OF lt] by (simp add: m_def l_def)
  then have "int (length (str_center s width)) = l + int (length s) + (m - l)"
    using l0 lm by (simp add: length_pad)
  then show ?thesis using lt by (simp add: m_def)
qed

lemma length_str_ljust: "int (length (str_ljust s width)) = max width (int (length s))"
  by (simp add: str_ljust_def length_pad)

lemma length_str_rjust: "int (length (str_rjust s width)) = max width (int (length s))"
  by (simp add: str_rjust_def length_pad)

lemma length_justify_line:
  "int (length (justify_line width alignment line)) = max width (int (length line))"
  by (simp add: justify_line_def length_str_center length_str_ljust length_str_rjust)

lemma justify_line_unchanged:
  "width \<le> int (length line) \<Longrightarrow> justify_line width alignment line = line"
  by (simp add: justify_line_def str_center_def str_ljust_def str_rjust_def)

lemma justify_line_idem:
  "justify_line width alignment (justify_line width alignment line) =
   justify_line width alignment line"
  by (rule justify_line_unchanged) (simp add: length_justify_line)

lemma space_neq_newline: "space \<noteq> newline"
  by (simp add: space_def newline_def)

lemma set_pad: "set (pad s l r) \<subseteq> insert space (set s)"
  by (auto simp: pad_def)

lemma set_justify_line: "set (justify_line width alignment line) \<subseteq> insert space (set line)"
  using set_pad [of line]
  by (auto simp: justify_line_def str_center_def str_ljust_def str_rjust_def Let_def)

lemma justify_line_no_newline:
  "newline \<notin> set line \<Longrightarrow> newline \<notin> set (justify_line width alignment line)"
  using set_justify_line [of width alignment line] space_neq_newline by auto

lemma justify_loop_map:
  "justify_loop lines width alignment justified =
   justified @ map (justify_line width alignment) lines"
  by (induction lines arbitrary: justified) simp_all

lemma justify_text_map:
  "justify_text text width alignment =
   str_join (map (justify_line width alignment) (str_split text))"
  by (simp add: justify_text_def justify_loop_map)

lemma str_split_justify_text:
  "str_split (justify_text text width alignment) =
   map (justify_line width alignment) (str_split text)"
  unfolding justify_text_map
proof (rule str_split_join)
  show "map (justify_line width alignment) (str_split text) \<noteq> []"
    by (simp add: str_split_nonempty)
next
  fix l
  assume "l \<in> set (map (justify_line width alignment) (str_split text))"
  then obtain x where x: "x \<in> set (str_split text)"
    and l: "l = justify_line width alignment x"
    by auto
  from x have "newline \<notin> set x" by (rule str_split_no_newline)
  then show "newline \<notin> set l" unfolding l by (rule justify_line_no_newline)
qed

lemma justify_text_row:
  "newline \<notin> set row \<Longrightarrow> justify_text row width alignment = justify_line width alignment row"
  by (simp add: justify_text_map str_split_line)




lemma str_center_empty: "0 \<le> width \<Longrightarrow> str_center [] width = replicate (nat width) space"
proof -
  assume w: "0 \<le> width"
  define l where "l = width div 2 + (if odd width then 1 else 0)"
  have l0: "0 \<le> l" and lw: "l \<le> width" using w unfolding l_def by (auto elim: oddE)
  show ?thesis
  proof (cases "width = 0")
    case True
    then show ?thesis by (simp add: str_center_def)
  next
    case False
    then have "str_center [] width = pad [] l (width - l)"
      using w by (simp add: str_center_def Let_def and_and_one l_def)
    also have "\<dots> = replicate (nat l + nat (width - l)) space"
      by (simp add: pad_def replicate_add)
    also have "nat l + nat (width - l) = nat width" using l0 lw by simp
    finally show ?thesis .
  qed
qed

lemma justify_text_empty_center:
  "0 \<le> width \<Longrightarrow> justify_text [] width (Some (u ''center'')) = replicate (nat width) space"
  by (simp add: justify_text_def justify_line_def str_center_empty)

text \<open>Facts for evaluating the operations on literals.\<close>

lemma replicate_small:
  "replicate (0::nat) x = []" "replicate (1::nat) x = [x]" "replicate (2::nat) x = [x, x]"
  "replicate (3::nat) x = [x, x, x]" "replicate (4::nat) x = [x, x, x, x]"
  by (simp_all add: numeral_eq_Suc)

lemma u_simps: "u [] = []" "u (c # cs) = of_char c # u cs"
  by (simp_all add: u_def)

section \<open>Properties of the handlers\<close>

lemma FigletRequest_render_request:
  "FigletRequest (render_request text font width justify) =
   Inr \<lparr>req_text = text, req_font = font, req_width = Some width, req_justify = Some justify\<rparr>"
  by (simp add: FigletRequest_def render_request_def with_default_def)

lemma generate_ascii_try_render:
  "font \<in> set getFonts \<Longrightarrow> figlet_format text font (Val width) = Inr art \<Longrightarrow>
   generate_ascii_try getFonts figlet_format (render_request text font width justify) =
   Inr \<lparr>ascii_art = justify_text art width (Some justify), font_used = font,
        metadata = RenderMeta text (Some width) (Some justify) (length (str_split art))\<rparr>"
  by (simp add: generate_ascii_try_def FigletRequest_render_request kwarg_def Let_def
                str_split_justify_text)

lemma generate_ascii_render:
  "font \<in> set getFonts \<Longrightarrow> figlet_format text font (Val width) = Inr art \<Longrightarrow>
   generate_ascii getFonts figlet_format (render_request text font width justify) =
   Inr \<lparr>ascii_art = justify_text art width (Some justify), font_used = font,
        metadata = RenderMeta text (Some width) (Some justify) (length (str_split art))\<rparr>"
  by (simp add: generate_ascii_def generate_ascii_try_render)

lemma generate_ascii_engine_error:
  "font \<in> set getFonts \<Longrightarrow> figlet_format text font (Val width) = Inl m \<Longrightarrow>
   generate_ascii getFonts figlet_format (render_request text font width justify) =
   Inl (HTTPException 500 (StrOf (FigletError m)))"
  by (simp add: generate_ascii_def generate_ascii_try_def FigletRequest_render_request kwarg_def)

lemma plain_engine_Hi:
  "plain_engine (u ''Hi'') font width = Inr (u ''Hi'' @ [newline])"
  by (simp add: plain_engine_def u_def)

lemma str_split_Hi: "str_split (u ''Hi'' @ [newline]) = [u ''Hi'', []]"
  by (simp add: u_def newline_def)

section \<open>C1: a font that is not in the catalog\<close>

text \<open>
  Claim C1: for every render request whose font name is not in the catalog, render fails
  with the font-not-found error, reported to the caller as a 400-class client error, and
  never returns partial output.

  The handler does raise \<open>HTTPException(status_code=400)\<close>, but inside the \<open>try\<close> whose
  \<open>except Exception\<close> catches it: for every request that passes validation and names a
  font outside the catalog, the caller receives no output and a 500 whose detail is the
  text of the 400.
\<close>

theorem unknown_font_reported_as_500:
  assumes "FigletRequest b = Inr req" and "req_font req \<notin> set getFonts"
  shows "generate_ascii_try getFonts figlet_format b =
           Inl (HTTPException 400 (FontNotFound (take 5 getFonts) (length getFonts))) \<and>
         generate_ascii getFonts figlet_format b =
           Inl (HTTPException 500
                  (StrOf (HTTPException 400 (FontNotFound (take 5 getFonts) (length getFonts)))))"
  using assms by (simp add: generate_ascii_def generate_ascii_try_def)

theorem unknown_font_reported_as_500_witness:
  "FigletRequest (render_request (u ''Hi'') (u ''nosuchfont'') 80 (u ''center'')) =
     Inr \<lparr>req_text = u ''Hi'', req_font = u ''nosuchfont'', req_width = Some 80,
          req_justify = Some (u ''center'')\<rparr> \<and>
   u ''nosuchfont'' \<notin> set [u ''standard'', u ''banner''] \<and>
   generate_ascii [u ''standard'', u ''banner''] plain_engine
       (render_request (u ''Hi'') (u ''nosuchfont'') 80 (u ''center'')) =
     Inl (HTTPException 500
            (StrOf (HTTPException 400 (FontNotFound [u ''standard'', u ''banner''] 2))))"
proof -
  have a: "FigletRequest (render_request (u ''Hi'') (u ''nosuchfont'') 80 (u ''center'')) =
     Inr \<lparr>req_text = u ''Hi'', req_font = u ''nosuchfont'', req_width = Some 80,
          req_justify = Some (u ''center'')\<rparr>"
    by (rule FigletRequest_render_request)
  have b: "req_font \<lparr>req_text = u ''Hi'', req_font = u ''nosuchfont'', req_width = Some 80,
          req_justify = Some (u ''center'')\<rparr> \<notin> set [u ''standard'', u ''banner'']"
    by (simp add: u_def)
  show ?thesis
    using a b unknown_font_reported_as_500 [OF a b, of plain_engine] by simp
qed

section \<open>C2: the empty text\<close>

text \<open>
  Claim C2: \<open>render("", "standard", 80, "center")\<close> fails with a validation error; it does
  not crash and does not return an empty successful result.

  \<open>FigletRequest\<close> puts no constraint on \<open>text\<close>. With an engine that renders the empty text
  as the empty string, the request succeeds: one row of 80 spaces.
\<close>

theorem empty_text_counterexample:
  "generate_ascii [u ''standard''] plain_engine
       (render_request [] (u ''standard'') 80 (u ''center'')) =
     Inr \<lparr>ascii_art = replicate 80 space, font_used = u ''standard'',
          metadata = RenderMeta [] (Some 80) (Some (u ''center'')) 1\<rparr>"
proof -
  have "generate_ascii [u ''standard''] plain_engine
       (render_request [] (u ''standard'') 80 (u ''center'')) =
     Inr \<lparr>ascii_art = justify_text [] 80 (Some (u ''center'')), font_used = u ''standard'',
        metadata = RenderMeta [] (Some 80) (Some (u ''center'')) (length (str_split []))\<rparr>"
    by (rule generate_ascii_render) (simp_all add: plain_engine_def)
  then show ?thesis by (simp add: justify_text_empty_center)
qed

text \<open>
  Claim C2, amended: \<open>render("", "standard", 80, "center")\<close> is not rejected. The request
  passes validation and the empty text is handed to the engine. No outcome is a validation
  error; when the engine returns the empty string the result is a successful response with
  one row of 80 spaces and a line count of 1; when the engine raises, the caller receives
  a 500 carrying the engine's message.
\<close>

theorem empty_text_not_rejected:
  assumes "u ''standard'' \<in> set getFonts"
  shows "(\<forall>fields. generate_ascii_try getFonts figlet_format
             (render_request [] (u ''standard'') 80 (u ''center'')) \<noteq>
           Inl (ValidationError fields)) \<and>
         (figlet_format [] (u ''standard'') (Val 80) = Inr [] \<longrightarrow>
            generate_ascii getFonts figlet_format
               (render_request [] (u ''standard'') 80 (u ''center'')) =
            Inr \<lparr>ascii_art = replicate 80 space, font_used = u ''standard'',
                 metadata = RenderMeta [] (Some 80) (Some (u ''center'')) 1\<rparr>) \<and>
         (\<forall>m. figlet_format [] (u ''standard'') (Val 80) = Inl m \<longrightarrow>
            generate_ascii getFonts figlet_format
               (render_request [] (u ''standard'') 80 (u ''center'')) =
            Inl (HTTPException 500 (StrOf (FigletError m))))"
proof (intro conjI allI impI)
  fix fields
  show "generate_ascii_try getFonts figlet_format
          (render_request [] (u ''standard'') 80 (u ''center'')) \<noteq> Inl (ValidationError fields)"
    using assms
    by (simp add: generate_ascii_try_def FigletRequest_render_request Let_def
             split: sum.split option.split)
next
  assume "figlet_format [] (u ''standard'') (Val 80) = Inr []"
  then show "generate_ascii getFonts figlet_format
               (render_request [] (u ''standard'') 80 (u ''center'')) =
            Inr \<lparr>ascii_art = replicate 80 space, font_used = u ''standard'',
                 metadata = RenderMeta [] (Some 80) (Some (u ''center'')) 1\<rparr>"
    using assms by (simp add: generate_ascii_render justify_text_empty_center)
next
  fix m
  assume "figlet_format [] (u ''standard'') (Val 80) = Inl m"
  then show "generate_ascii getFonts figlet_format
               (render_request [] (u ''standard'') 80 (u ''center'')) =
            Inl (HTTPException 500 (StrOf (FigletError m)))"
    using assms by (simp add: generate_ascii_engine_error)
qed

theorem empty_text_not_rejected_witness:
  "u ''standard'' \<in> set [u ''standard''] \<and>
   plain_engine [] (u ''standard'') (Val 80) = Inr [] \<and>
   generate_ascii_try [u ''standard''] plain_engine
       (render_request [] (u ''standard'') 80 (u ''center'')) \<noteq>
     Inl (ValidationError [u ''text'']) \<and>
   generate_ascii [u ''standard''] plain_engine
       (render_request [] (u ''standard'') 80 (u ''center'')) =
     Inr \<lparr>ascii_art = replicate 80 space, font_used = u ''standard'',
          metadata = RenderMeta [] (Some 80) (Some (u ''center'')) 1\<rparr>"
proof -
  have a: "u ''standard'' \<in> set [u ''standard'']" by simp
  have b: "plain_engine [] (u ''standard'') (Val 80) = Inr []"
    by (simp add: plain_engine_def)
  show ?thesis
    using a b empty_text_not_rejected [of "[u ''standard'']" plain_engine] by simp
qed

section \<open>C3: width and justification are not validated\<close>




section \<open>C4: centring a short row\<close>

text \<open>
  Claim C4: for every row whose length is less than the target width, center justification
  pads the row to exactly the target width with the extra padding cell (when the total
  padding is odd) placed on the right.

  \<open>str.center\<close> puts the extra cell on the left when the width is odd: \<open>ab\<close> centred at
  width 5 has two spaces before it and one after.
\<close>

theorem center_right_bias_counterexample:
  "justify_text (u ''ab'') 5 (Some (u ''center'')) = u ''  ab '' \<and>
   justify_text (u ''ab'') 5 (Some (u ''center'')) \<noteq> u '' ab  ''"
  by (simp add: justify_text_def justify_line_def str_center_def pad_def u_simps space_def
                newline_def Let_def replicate_small)

text \<open>
  Claim C4, amended: for every row whose length is less than the target width, center
  justification pads the row with spaces to exactly the target width; the two paddings are
  equal when the total padding is even, and when it is odd the extra cell is on the right
  for an even target width and on the left for an odd one.
\<close>

theorem center_padding:
  assumes "newline \<notin> set row" and "int (length row) < width"
  shows "\<exists>left right.
           justify_text row width (Some (u ''center'')) =
             replicate left space @ row @ replicate right space \<and>
           int (length (justify_text row width (Some (u ''center'')))) = width \<and>
           int left + int right = width - int (length row) \<and>
           (if even (width - int (length row)) then left = right
            else if even width then right = left + 1
            else left = right + 1)"
proof -
  define m where "m = width - int (length row)"
  define l where "l = m div 2 + (if odd m \<and> odd width then 1 else 0)"
  have m: "0 < m" using assms(2) by (simp add: m_def)
  have l0: "0 \<le> l" using m by (simp add: l_def)
  have lm: "l \<le> m" using m unfolding l_def by (auto elim: oddE)
  have c: "justify_text row width (Some (u ''center'')) = pad row l (m - l)"
    using str_center_pad [OF assms(2)] assms(1)
    by (simp add: justify_text_row justify_line_def m_def l_def)
  have rel: "if even m then nat l = nat (m - l)
             else if even width then nat (m - l) = nat l + 1
             else nat l = nat (m - l) + 1"
    using m unfolding l_def by (auto elim!: evenE oddE)
  show ?thesis
  proof (intro exI conjI)
    show "justify_text row width (Some (u ''center'')) =
            replicate (nat l) space @ row @ replicate (nat (m - l)) space"
      by (simp add: c pad_def)
    show "int (length (justify_text row width (Some (u ''center'')))) = width"
      using l0 lm by (simp add: c length_pad m_def)
    show "int (nat l) + int (nat (m - l)) = width - int (length row)"
      using l0 lm by (simp add: m_def)
    show "if even (width - int (length row)) then nat l = nat (m - l)
          else if even width then nat (m - l) = nat l + 1
          else nat l = nat (m - l) + 1"
      using rel by (simp add: m_def)
  qed
qed

theorem center_padding_witness:
  "newline \<notin> set (u ''ab'') \<and> int (length (u ''ab'')) < 5 \<and>
   (\<exists>left right.
      justify_text (u ''ab'') 5 (Some (u ''center'')) =
        replicate left space @ u ''ab'' @ replicate right space \<and>
      int (length (justify_text (u ''ab'') 5 (Some (u ''center'')))) = 5 \<and>
      int left + int right = 3 \<and> left = right + 1)"
proof -
  have a: "newline \<notin> set (u ''ab'')" by (simp add: u_def newline_def)
  have b: "int (length (u ''ab'')) < 5" by (simp add: u_def)
  have l: "int (length (u ''ab'')) = 2" by (simp add: u_def)
  show ?thesis
    using a b center_padding [OF a b] by (simp add: l)
qed

section \<open>C5: justifying twice\<close>

text \<open>
  Claim C5: justification is idempotent. For every row, width and mode among left, center
  and right, justifying an already justified row at the same width and mode returns the
  identical row, with no further padding. (Proved for every text, of one row or more, and
  for every alignment value.)
\<close>

theorem justify_text_idempotent:
  "justify_text (justify_text text width alignment) width alignment =
   justify_text text width alignment"
proof -
  have "justify_text (justify_text text width alignment) width alignment =
        str_join (map (justify_line width alignment)
                    (map (justify_line width alignment) (str_split text)))"
    by (simp add: justify_text_map [of "justify_text text width alignment"]
                  str_split_justify_text)
  also have "\<dots> = str_join (map (justify_line width alignment) (str_split text))"
    by (simp add: comp_def justify_line_idem)
  finally show ?thesis by (simp add: justify_text_map)
qed

section \<open>C6: rows longer than the width\<close>

text \<open>
  Claim C6: for every row whose natural length exceeds the target width, justification
  under each of the three modes left, center and right returns the row with its length
  unchanged; no truncation ever occurs. (The row itself is unchanged, and the length is
  unchanged under every alignment value.)
\<close>

theorem justify_text_no_truncation:
  assumes "newline \<notin> set row" and "width < int (length row)"
  shows "justify_text row width (Some (u ''left'')) = row \<and>
         justify_text row width (Some (u ''center'')) = row \<and>
         justify_text row width (Some (u ''right'')) = row \<and>
         length (justify_text row width alignment) = length row"
  using assms by (simp add: justify_text_row justify_line_unchanged)

theorem justify_text_no_truncation_witness:
  "newline \<notin> set (u ''hello'') \<and> 3 < int (length (u ''hello'')) \<and>
   justify_text (u ''hello'') 3 (Some (u ''left'')) = u ''hello'' \<and>
   justify_text (u ''hello'') 3 (Some (u ''center'')) = u ''hello'' \<and>
   justify_text (u ''hello'') 3 (Some (u ''right'')) = u ''hello'' \<and>
   length (justify_text (u ''hello'') 3 (Some (u ''right''))) = length (u ''hello'')"
proof -
  have a: "newline \<notin> set (u ''hello'')" by (simp add: u_def newline_def)
  have b: "3 < int (length (u ''hello''))" by (simp add: u_def)
  show ?thesis
    using a b justify_text_no_truncation [OF a b, of "Some (u ''right'')"] by simp
qed

section \<open>C7: rows and line count of a render\<close>

text \<open>
  Claim C7: for every valid render request (non-empty text, known font, width at least 1,
  justification among left, center and right), render returns a non-empty sequence of
  output rows whose length equals the \<open>line_count\<close> of the returned metadata.

  The handler returns rows only when the library call returns: an exception raised there is
  caught by \<open>except Exception\<close> and becomes a 500. A valid request whose rendering raises
  yields no rows and no metadata.
\<close>

theorem render_engine_failure_counterexample:
  "u ''Hi'' \<noteq> [] \<and> u ''standard'' \<in> set [u ''standard''] \<and> (1::int) \<le> 1 \<and>
   u ''center'' \<in> {u ''left'', u ''center'', u ''right''} \<and>
   generate_ascii [u ''standard''] refusing_engine
       (render_request (u ''Hi'') (u ''standard'') 1 (u ''center'')) =
     Inl (HTTPException 500
            (StrOf (FigletError (u ''Width is not enough to print this character''))))"
proof -
  have "generate_ascii [u ''standard''] refusing_engine
       (render_request (u ''Hi'') (u ''standard'') 1 (u ''center'')) =
     Inl (HTTPException 500
            (StrOf (FigletError (u ''Width is not enough to print this character''))))"
    by (rule generate_ascii_engine_error) (simp_all add: refusing_engine_def)
  moreover have "u ''Hi'' \<noteq> []" by (simp add: u_def)
  ultimately show ?thesis by simp
qed

text \<open>
  Claim C7, amended: for every render request with a known font, and so for every valid
  one (non-empty text, width at least 1, justification among left, center and right),
  whenever the rendering engine returns a block render returns a non-empty sequence of
  output rows (the lines of the block, justified) whose length equals the \<open>line_count\<close>
  of the returned metadata; when the engine raises, render returns no rows and the caller
  receives a 500 carrying the engine's message.
\<close>

theorem render_rows_or_engine_failure:
  assumes "font \<in> set getFonts"
  shows "(\<forall>art. figlet_format text font (Val width) = Inr art \<longrightarrow>
            (\<exists>r. generate_ascii getFonts figlet_format
                    (render_request text font width justify) = Inr r \<and>
                 ascii_art r = justify_text art width (Some justify) \<and>
                 str_split (ascii_art r) \<noteq> [] \<and>
                 length (str_split (ascii_art r)) = line_count (metadata r) \<and>
                 line_count (metadata r) = length (str_split art))) \<and>
         (\<forall>m. figlet_format text font (Val width) = Inl m \<longrightarrow>
            generate_ascii getFonts figlet_format (render_request text font width justify) =
            Inl (HTTPException 500 (StrOf (FigletError m))))"
proof (intro conjI allI impI)
  fix art
  assume "figlet_format text font (Val width) = Inr art"
  then show "\<exists>r. generate_ascii getFonts figlet_format
                    (render_request text font width justify) = Inr r \<and>
                 ascii_art r = justify_text art width (Some justify) \<and>
                 str_split (ascii_art r) \<noteq> [] \<and>
                 length (str_split (ascii_art r)) = line_count (metadata r) \<and>
                 line_count (metadata r) = length (str_split art)"
    using assms
    by (simp add: generate_ascii_render str_split_nonempty str_split_justify_text)
next
  fix m
  assume "figlet_format text font (Val width) = Inl m"
  then show "generate_ascii getFonts figlet_format (render_request text font width justify) =
             Inl (HTTPException 500 (StrOf (FigletError m)))"
    using assms by (simp add: generate_ascii_engine_error)
qed

theorem render_rows_or_engine_failure_witness:
  "u ''standard'' \<in> set [u ''standard''] \<and>
   plain_engine (u ''Hi'') (u ''standard'') (Val 4) = Inr (u ''Hi'' @ [newline]) \<and>
   (\<exists>r. generate_ascii [u ''standard''] plain_engine
            (render_request (u ''Hi'') (u ''standard'') 4 (u ''right'')) = Inr r \<and>
        ascii_art r = justify_text (u ''Hi'' @ [newline]) 4 (Some (u ''right'')) \<and>
        str_split (ascii_art r) \<noteq> [] \<and>
        length (str_split (ascii_art r)) = line_count (metadata r) \<and>
        line_count (metadata r) = 2)"
proof -
  have a: "u ''standard'' \<in> set [u ''standard'']" by simp
  have b: "plain_engine (u ''Hi'') (u ''standard'') (Val 4) = Inr (u ''Hi'' @ [newline])"
    by (rule plain_engine_Hi)
  have s: "length (str_split (u ''Hi'' @ [newline])) = 2"
    by (simp add: str_split_Hi)
  show ?thesis
    using a b
      render_rows_or_engine_failure [of "u ''standard''" "[u ''standard'']" plain_engine
        "u ''Hi''" 4 "u ''right''"]
    by (simp add: s)
qed

section \<open>C8: the font list\<close>

text \<open>
  Claim C8: every result of the font-list operation satisfies \<open>count\<close> = length of the
  returned \<open>fonts\<close> sequence.
\<close>

theorem list_fonts_count: "count (list_fonts getFonts) = length (fonts (list_fonts getFonts))"
  by (simp add: list_fonts_def)

section \<open>C9: the random sample\<close>

text \<open>
  Claim C9: for every invocation of the random-sample operation, a single font and a
  single phrase are chosen, the phrase is rendered with default width and justification
  applied, and the font reported in \<open>font_used\<close> is the font that rendered the returned
  \<open>ascii_art\<close>.

  The handler draws a font for the rendering and draws again for \<open>font_used\<close>. With the
  catalog \<open>standard\<close>, \<open>banner\<close> and the draws 0, 1, 2 the art is made by the engine
  with \<open>banner\<close> and the response reports \<open>standard\<close>. The handler never calls
  \<open>justify_text\<close> and passes no width.
\<close>

theorem random_art_font_mismatch:
  "random_art [u ''standard'', u ''banner''] figlet_format id 0 =
     (case figlet_format (u ''Hello World'') (u ''banner'') Absent of
        Inl m \<Rightarrow> Inl (FigletError m)
      | Inr art \<Rightarrow>
          Inr (\<lparr>ascii_art = art, font_used = u ''standard'',
                metadata = NoteMeta (u ''Randomly generated'')\<rparr>, 3))"
proof -
  have 1: "choice sample_texts id 0 = Inr (u ''Hello World'', Suc 0)"
    by code_simp
  have 2: "choice [u ''standard'', u ''banner''] id (Suc 0) = Inr (u ''banner'', Suc (Suc 0))"
    by code_simp
  have 3: "choice [u ''standard'', u ''banner''] id (Suc (Suc 0)) = Inr (u ''standard'', 3)"
    by code_simp
  show ?thesis
    unfolding random_art_def 1 by (simp add: 2 3 split: sum.split)
qed

section \<open>C10: line count and line lengths of \<open>justify_text\<close>\<close>

text \<open>
  Claim C10: for every input text, every width and every alignment string (unrecognized
  ones included, which are justified as left), \<open>justify_text\<close> returns a text with exactly
  as many lines as its input, and each output line has length max(width, length of the
  corresponding input line).
\<close>

theorem justify_text_line_lengths:
  "length (str_split (justify_text text width alignment)) = length (str_split text) \<and>
   map (\<lambda>l. int (length l)) (str_split (justify_text text width alignment)) =
   map (\<lambda>l. max width (int (length l))) (str_split text)"
  by (simp add: str_split_justify_text length_justify_line comp_def)

end
